theory Spec2Isabelle
  imports Main
begin

section \<open>The Arxiv wrapper of \<^verbatim>\<open>Multi-Agent/arxiv_tools/get_arxiv_tools.py\<close>\<close>

text \<open>
  The class \<^verbatim>\<open>ArxivAPIWrapper\<close> forwards a query to the arxiv client and projects the
  results into strings and Documents. The embedding below follows the Python text
  method by method. A Python string is a \<open>string\<close> here, one character of the model
  standing for one character of the Python string, so \<open>length\<close> is Python's \<open>len\<close>.
\<close>

subsection \<open>Python values the code handles\<close>

text \<open>
  The exceptions that can travel through the wrapper. The first three are the members of
  the class attribute \<^verbatim>\<open>arxiv_exceptions\<close>; \<open>ImportError\<close> is raised by \<^verbatim>\<open>lazy_load\<close>
  itself; \<open>FileDataError\<close> is what opening an unreadable PDF raises, \<open>FileNotFoundError\<close>
  what \<^verbatim>\<open>os.remove\<close> raises on a missing path, and \<open>OtherError\<close> any other exception
  of the client. Each carries the text that \<^verbatim>\<open>str(ex)\<close> gives.
\<close>

datatype error =
    ArxivError string
  | UnexpectedEmptyPageError string
  | HTTPError string
  | ImportError string
  | FileDataError string
  | FileNotFoundError string
  | OtherError string

fun str_of_error :: "error \<Rightarrow> string" where
  "str_of_error (ArxivError m) = m"
| "str_of_error (UnexpectedEmptyPageError m) = m"
| "str_of_error (HTTPError m) = m"
| "str_of_error (ImportError m) = m"
| "str_of_error (FileDataError m) = m"
| "str_of_error (FileNotFoundError m) = m"
| "str_of_error (OtherError m) = m"

text \<open>\<^verbatim>\<open>except self.arxiv_exceptions as ex\<close> matches exactly these.\<close>

fun arxiv_exceptions :: "error \<Rightarrow> bool" where
  "arxiv_exceptions (ArxivError m) = True"
| "arxiv_exceptions (UnexpectedEmptyPageError m) = True"
| "arxiv_exceptions (HTTPError m) = True"
| "arxiv_exceptions (ImportError m) = False"
| "arxiv_exceptions (FileDataError m) = False"
| "arxiv_exceptions (FileNotFoundError m) = False"
| "arxiv_exceptions (OtherError m) = False"

text \<open>
  A \<^verbatim>\<open>datetime.date\<close> and its \<^verbatim>\<open>str\<close>, the ISO form \<^verbatim>\<open>YYYY-MM-DD\<close> (Python's dates
  have years 1 to 9999, so four digits are all of the year).
\<close>

datatype date = Date (year: nat) (month: nat) (day: nat)

record datetime =
  dt_date :: date
  dt_hour :: nat
  dt_minute :: nat
  dt_second :: nat

definition digit :: "nat \<Rightarrow> char" where
  "digit n = ''0123456789'' ! (n mod 10)"

definition str_of_date :: "date \<Rightarrow> string" where
  "str_of_date d =
     [digit (year d div 1000), digit (year d div 100), digit (year d div 10), digit (year d)]
     @ ''-'' @ [digit (month d div 10), digit (month d)]
     @ ''-'' @ [digit (day d div 10), digit (day d)]"

text \<open>\<^verbatim>\<open>sep.join(xs)\<close> on strings.\<close>

fun str_join :: "string \<Rightarrow> string list \<Rightarrow> string" where
  "str_join sep [] = []"
| "str_join sep [x] = x"
| "str_join sep (x # y # ys) = x @ sep @ str_join sep (y # ys)"

text \<open>
  The slice \<^verbatim>\<open>s[:n]\<close>: all of \<open>s\<close> when \<open>n\<close> is \<^verbatim>\<open>None\<close>, the first \<open>n\<close> characters when
  \<open>n\<close> is not negative, and all but the last \<open>-n\<close> characters when it is negative.
\<close>

definition slice_to :: "int option \<Rightarrow> 'a list \<Rightarrow> 'a list" where
  "slice_to n s =
     (case n of
        None \<Rightarrow> s
      | Some k \<Rightarrow> if 0 \<le> k then take (nat k) s else take (nat (int (length s) + k)) s)"

text \<open>\<^verbatim>\<open>s.replace(c, "")\<close> for a one-character \<open>c\<close>.\<close>

definition remove_char :: "char \<Rightarrow> string \<Rightarrow> string" where
  "remove_char c s = filter (\<lambda>x. x \<noteq> c) s"

abbreviation newline :: char where
  "newline \<equiv> CHR 0x0A"

subsection \<open>Search results, Documents and the configuration\<close>

datatype author = Author (name: string)

datatype link = Link (href: string)

text \<open>
  An \<^verbatim>\<open>arxiv.Result\<close>, with the fields the wrapper reads. \<open>pdf_path\<close> is the path
  \<^verbatim>\<open>download_pdf()\<close> writes to and returns, and \<open>pdf_pages\<close> is what reading that file
  with \<^verbatim>\<open>fitz\<close> gives: the text of each page in order, or the exception \<^verbatim>\<open>fitz.open\<close>
  raises. The download itself is taken to succeed.
\<close>

record search_result =
  entry_id :: string
  updated :: datetime
  published :: datetime
  title :: string
  authors :: "author list"
  summary :: string
  comment :: "string option"
  journal_ref :: "string option"
  doi :: "string option"
  primary_category :: string
  categories :: "string list"
  links :: "link list"
  pdf_path :: string
  pdf_pages :: "error + string list"

text \<open>The values a metadata dictionary holds; \<open>MNone\<close> is Python's \<^verbatim>\<open>None\<close>.\<close>

datatype meta_value =
    MStr string
  | MDate date
  | MNone
  | MList "string list"

fun meta_opt :: "string option \<Rightarrow> meta_value" where
  "meta_opt None = MNone"
| "meta_opt (Some s) = MStr s"

text \<open>
  A \<^verbatim>\<open>Document\<close>: the metadata dictionary is the list of its items in insertion order
  (the keys of each dictionary literal of the source are distinct).
\<close>

record document =
  page_content :: string
  metadata :: "(string \<times> meta_value) list"

text \<open>\<^verbatim>\<open>Document(page_content=s)\<close>: the metadata defaults to the empty dictionary.\<close>

definition Document_of_content :: "string \<Rightarrow> document" where
  "Document_of_content s = \<lparr>page_content = s, metadata = []\<rparr>"

record config =
  top_k_results :: int
  ARXIV_MAX_QUERY_LENGTH :: int
  continue_on_failure :: bool
  load_max_docs :: int
  load_all_available_meta :: bool
  doc_content_chars_max :: "int option"

definition default_config :: config where
  "default_config =
     \<lparr>top_k_results = 3, ARXIV_MAX_QUERY_LENGTH = 300, continue_on_failure = False,
      load_max_docs = 500, load_all_available_meta = True,
      doc_content_chars_max = Some 40000\<rparr>"

subsection \<open>The world outside the wrapper\<close>

text \<open>
  What the wrapper does not own: whether \<^verbatim>\<open>import fitz\<close> succeeds, and the arxiv client.
  \<^verbatim>\<open>client.results(search)\<close> gives a lazy iterator: the results are fetched, and the errors
  of fetching them are raised, while the iterator is iterated. An iterator is modelled by
  the results it still gives, in order, and by how it ends after them: normally, or by
  raising an exception.
\<close>

datatype results_iterator =
  Iterator (pending: "search_result list") (failure: "error option")

text \<open>
  Iterating an iterator to its end, as a list comprehension over it does: the list of the
  results, or the exception the iterator raises.
\<close>

definition iterate :: "results_iterator \<Rightarrow> error + search_result list" where
  "iterate results =
     (case failure results of
        None \<Rightarrow> Inr (pending results)
      | Some ex \<Rightarrow> Inl ex)"

text \<open>
  The client, for a query and a \<^verbatim>\<open>max_results\<close>, gives an iterator; the call itself may
  raise as well (\<open>Inl\<close>), which is what the \<^verbatim>\<open>try\<close> of the source is around.
\<close>

record env =
  fitz_available :: bool
  client_results :: "string \<Rightarrow> int \<Rightarrow> error + results_iterator"

text \<open>
  The effects are recorded in a world that every operation takes and returns: the paths
  that exist on disk, and the trace of what was done, in order. \<open>Search q k\<close> is the call
  of the client with the query \<open>q\<close> and \<^verbatim>\<open>max_results\<close> \<open>k\<close>.
\<close>

datatype event =
    Search string int
  | Download string
  | Remove string

record world =
  files :: "string set"
  trace :: "event list"

definition download_pdf :: "search_result \<Rightarrow> world \<Rightarrow> string \<times> world" where
  "download_pdf result w =
     (pdf_path result,
      w\<lparr>files := insert (pdf_path result) (files w),
        trace := trace w @ [Download (pdf_path result)]\<rparr>)"

text \<open>
  \<^verbatim>\<open>os.remove(p)\<close>; on a missing path it raises \<^verbatim>\<open>FileNotFoundError\<close>, whose text is
  \<^verbatim>\<open>[Errno 2] No such file or directory: 'p'\<close> (for a path that \<^verbatim>\<open>repr\<close> leaves as it is).
\<close>

definition os_remove :: "string \<Rightarrow> world \<Rightarrow> error + world" where
  "os_remove p w =
     (if p \<in> files w
      then Inr (w\<lparr>files := files w - {p}, trace := trace w @ [Remove p]\<rparr>)
      else Inl (FileNotFoundError
                  (''[Errno 2] No such file or directory: '' @ [CHR 0x27] @ p @ [CHR 0x27])))"

subsection \<open>The methods of \<^verbatim>\<open>ArxivAPIWrapper\<close>\<close>

definition fetch_results ::
  "env \<Rightarrow> config \<Rightarrow> string \<Rightarrow> world \<Rightarrow> (error + results_iterator) \<times> world" where
  "fetch_results e cfg query w =
     (let q = slice_to (Some (ARXIV_MAX_QUERY_LENGTH cfg)) query
      in (client_results e q (top_k_results cfg),
          w\<lparr>trace := trace w @ [Search q (top_k_results cfg)]\<rparr>))"

definition get_summaries_as_docs ::
  "env \<Rightarrow> config \<Rightarrow> string \<Rightarrow> world \<Rightarrow> (error + document list) \<times> world" where
  "get_summaries_as_docs e cfg query w =
     (case fetch_results e cfg query w of
        (Inl ex, w') \<Rightarrow>
          if arxiv_exceptions ex
          then (Inr [Document_of_content (''Arxiv exception: '' @ str_of_error ex)], w')
          else (Inl ex, w')
      | (Inr results, w') \<Rightarrow>
          (case iterate results of
             Inl ex \<Rightarrow> (Inl ex, w')
           | Inr rs \<Rightarrow>
               (Inr (map (\<lambda>result.
                       \<lparr>page_content = summary result,
                        metadata =
                          [(''Entry ID'', MStr (entry_id result)),
                           (''Published'', MDate (dt_date (updated result))),
                           (''Title'', MStr (title result)),
                           (''Authors'', MStr (str_join '', '' (map name (authors result))))]\<rparr>)
                     rs),
                w')))"

definition run :: "env \<Rightarrow> config \<Rightarrow> string \<Rightarrow> world \<Rightarrow> (error + string) \<times> world" where
  "run e cfg query w =
     (case fetch_results e cfg query w of
        (Inl ex, w') \<Rightarrow>
          if arxiv_exceptions ex
          then (Inr (''Arxiv exception: '' @ str_of_error ex), w')
          else (Inl ex, w')
      | (Inr results, w') \<Rightarrow>
          (case iterate results of
             Inl ex \<Rightarrow> (Inl ex, w')
           | Inr rs \<Rightarrow>
               (let docs =
                      map (\<lambda>result.
                             ''Published: '' @ str_of_date (dt_date (updated result)) @ [newline]
                             @ ''Title: '' @ title result @ [newline]
                             @ ''Authors: '' @ str_join '', '' (map name (authors result))
                             @ [newline]
                             @ ''Summary: '' @ summary result)
                        rs
                in if docs \<noteq> []
                   then (Inr (slice_to (doc_content_chars_max cfg)
                                (str_join [newline, newline] docs)), w')
                   else (Inr ''No good Arxiv Result was found'', w'))))"

text \<open>
  In both methods the \<^verbatim>\<open>try\<close> is around the call of \<^verbatim>\<open>_fetch_results\<close> only; the
  comprehension that iterates the results comes after it, so what the iterator raises is
  not caught.

  \<^verbatim>\<open>lazy_load\<close> is a generator function. Calling it runs none of its body and gives a
  generator; each \<^verbatim>\<open>next\<close> on the generator runs the body up to the next \<^verbatim>\<open>yield\<close>.
  A generator is therefore in one of three states: \<open>Created\<close> with the query it was
  called with; \<open>Yielded\<close>, suspended at the \<^verbatim>\<open>yield\<close> inside the loop, with the iterator
  of the results still to come and the \<open>doc_file_name\<close> of the current iteration, whose
  \<^verbatim>\<open>os.remove\<close> is the next statement to run; and \<open>Exhausted\<close>, after the body has
  returned or raised, or the generator has been closed.
\<close>

datatype generator =
    Created string
  | Yielded results_iterator string
  | Exhausted

definition lazy_load ::
  "env \<Rightarrow> config \<Rightarrow> string \<Rightarrow> world \<Rightarrow> (error + generator) \<times> world" where
  "lazy_load e cfg query w = (Inr (Created query), w)"

text \<open>
  The loop \<^verbatim>\<open>for result in results\<close> from its head to the \<^verbatim>\<open>yield\<close>: \<open>Inr None\<close> is the
  end of the iteration (\<^verbatim>\<open>StopIteration\<close>), \<open>Inr (Some d)\<close> the Document yielded. The head
  of the loop takes the next result from the iterator, which may raise there.
\<close>

definition for_result_in ::
  "config \<Rightarrow> results_iterator \<Rightarrow> world \<Rightarrow> (error + document option) \<times> generator \<times> world" where
  "for_result_in cfg results w =
     (case pending results of
        [] \<Rightarrow>
          (case failure results of
             None \<Rightarrow> (Inr None, Exhausted, w)
           | Some ex \<Rightarrow> (Inl ex, Exhausted, w))
      | result # rest \<Rightarrow>
          (case download_pdf result w of
             (doc_file_name, w1) \<Rightarrow>
               (case pdf_pages result of
                  Inl ex \<Rightarrow> (Inl ex, Exhausted, w1)
                | Inr pages \<Rightarrow>
                    (let text = concat pages;
                         extra_metadata =
                           (if load_all_available_meta cfg
                            then [(''entry_id'', MStr (entry_id result)),
                                  (''published_first_time'',
                                     MStr (str_of_date (dt_date (published result)))),
                                  (''comment'', meta_opt (comment result)),
                                  (''journal_ref'', meta_opt (journal_ref result)),
                                  (''doi'', meta_opt (doi result)),
                                  (''primary_category'', MStr (primary_category result)),
                                  (''categories'', MList (categories result)),
                                  (''links'', MList (map href (links result)))]
                            else []);
                         metadata =
                           [(''Published'', MStr (str_of_date (dt_date (updated result)))),
                            (''Title'', MStr (title result)),
                            (''Authors'', MStr (str_join '', '' (map name (authors result)))),
                            (''Summary'', MStr (summary result))]
                           @ extra_metadata
                     in (Inr (Some \<lparr>page_content = slice_to (doc_content_chars_max cfg) text,
                                     metadata = metadata\<rparr>),
                         Yielded (Iterator rest (failure results)) doc_file_name, w1)))))"

text \<open>One \<^verbatim>\<open>next\<close> on the generator.\<close>

definition lazy_load_next ::
  "env \<Rightarrow> config \<Rightarrow> generator \<Rightarrow> world \<Rightarrow> (error + document option) \<times> generator \<times> world" where
  "lazy_load_next e cfg g w =
     (case g of
        Created query \<Rightarrow>
          if \<not> fitz_available e
          then (Inl (ImportError
                  ''PyMuPDF package not found, please install it with `pip install pymupdf`''),
                Exhausted, w)
          else
            (case fetch_results e cfg (remove_char CHR ''-'' (remove_char CHR '':'' query)) w of
               (Inl ex, w') \<Rightarrow> (Inl ex, Exhausted, w')
             | (Inr results, w') \<Rightarrow> for_result_in cfg results w')
      | Yielded rest doc_file_name \<Rightarrow>
          (case os_remove doc_file_name w of
             Inl ex \<Rightarrow> (Inl ex, Exhausted, w)
           | Inr w' \<Rightarrow> for_result_in cfg rest w')
      | Exhausted \<Rightarrow> (Inr None, Exhausted, w))"

text \<open>\<^verbatim>\<open>list(g)\<close>: \<^verbatim>\<open>next\<close> until the generator stops or raises.\<close>

function list_of ::
  "env \<Rightarrow> config \<Rightarrow> generator \<Rightarrow> world \<Rightarrow> (error + document list) \<times> world" where
  "list_of e cfg g w =
     (case lazy_load_next e cfg g w of
        (Inl ex, g', w') \<Rightarrow> (Inl ex, w')
      | (Inr None, g', w') \<Rightarrow> (Inr [], w')
      | (Inr (Some d), g', w') \<Rightarrow>
          (case list_of e cfg g' w' of
             (Inl ex, w'') \<Rightarrow> (Inl ex, w'')
           | (Inr ds, w'') \<Rightarrow> (Inr (d # ds), w'')))"
  by pat_completeness auto
termination
  apply (relation "measures [\<lambda>(e, cfg, g, w). case g of Created q \<Rightarrow> 1 | _ \<Rightarrow> 0,
                             \<lambda>(e, cfg, g, w). case g of
                                Yielded rs p \<Rightarrow> Suc (length (pending rs)) | _ \<Rightarrow> 0]")
   apply simp
  apply (auto simp: lazy_load_next_def for_result_in_def download_pdf_def
              split: generator.splits if_splits prod.splits sum.splits list.splits
                     option.splits)
  done

declare list_of.simps [simp del]

definition load :: "env \<Rightarrow> config \<Rightarrow> string \<Rightarrow> world \<Rightarrow> (error + document list) \<times> world" where
  "load e cfg query w =
     (case lazy_load e cfg query w of
        (Inl ex, w') \<Rightarrow> (Inl ex, w')
      | (Inr g, w') \<Rightarrow> list_of e cfg g w')"

text \<open>
  \<^verbatim>\<open>g.close()\<close>, which is also what happens to a generator that its consumer drops (a
  \<^verbatim>\<open>break\<close> out of the \<^verbatim>\<open>for\<close> over it): \<^verbatim>\<open>GeneratorExit\<close> is raised at the \<^verbatim>\<open>yield\<close>
  where the generator is suspended. The body of \<^verbatim>\<open>lazy_load\<close> has no \<^verbatim>\<open>try\<close> around the
  \<^verbatim>\<open>yield\<close>, so the generator ends there and no statement after the \<^verbatim>\<open>yield\<close> runs.
\<close>

definition lazy_load_close :: "generator \<Rightarrow> world \<Rightarrow> generator \<times> world" where
  "lazy_load_close g w = (Exhausted, w)"

subsection \<open>Notions of the specification\<close>

text \<open>
  The specification describes the text of \<^verbatim>\<open>run\<close> by a four-line block per result and
  by splitting on the blank line between blocks. These definitions follow its words:
  \<open>rendered_block\<close> is the block, \<open>split_double_newline\<close> is Python's
  \<^verbatim>\<open>s.split("\n\n")\<close> (the leftmost separators, never overlapping; \<open>split_from cur s\<close>
  carries the piece collected so far), and \<open>no_double_newline\<close> says that a string
  contains no two newlines in a row.
\<close>

definition rendered_block :: "search_result \<Rightarrow> string" where
  "rendered_block r =
     ''Published: '' @ str_of_date (dt_date (updated r)) @ [newline]
     @ ''Title: '' @ title r @ [newline]
     @ ''Authors: '' @ str_join '', '' (map name (authors r)) @ [newline]
     @ ''Summary: '' @ summary r"

fun split_from :: "string \<Rightarrow> string \<Rightarrow> string list" where
  "split_from cur [] = [cur]"
| "split_from cur [c] = [cur @ [c]]"
| "split_from cur (c # d # s) =
     (if c = newline \<and> d = newline then cur # split_from [] s
      else split_from (cur @ [c]) (d # s))"

definition split_double_newline :: "string \<Rightarrow> string list" where
  "split_double_newline s = split_from [] s"

fun no_double_newline :: "string \<Rightarrow> bool" where
  "no_double_newline (c # d # s) = ((c \<noteq> newline \<or> d \<noteq> newline) \<and> no_double_newline (d # s))"
| "no_double_newline s = True"

text \<open>The keys of a metadata dictionary, in order.\<close>

definition keys :: "document \<Rightarrow> string list" where
  "keys d = map fst (metadata d)"

subsection \<open>Example data\<close>

definition world0 :: world where
  "world0 = \<lparr>files = {}, trace = []\<rparr>"

text \<open>A world outside in which the client gives the same answer to every query.\<close>

definition env_of :: "bool \<Rightarrow> error + results_iterator \<Rightarrow> env" where
  "env_of fitz answer = \<lparr>fitz_available = fitz, client_results = (\<lambda>q k. answer)\<rparr>"

definition paper_a :: search_result where
  "paper_a =
     \<lparr>entry_id = ''http://arxiv.org/abs/2404.19756v4'',
      updated = \<lparr>dt_date = Date 2024 6 16, dt_hour = 13, dt_minute = 34, dt_second = 56\<rparr>,
      published = \<lparr>dt_date = Date 2024 4 30, dt_hour = 17, dt_minute = 58, dt_second = 29\<rparr>,
      title = ''KAN'',
      authors = [Author ''Z. Liu'', Author ''M. Tegmark''],
      summary = ''Networks with learnable edges.'',
      comment = Some ''48 pages'',
      journal_ref = None,
      doi = None,
      primary_category = ''cs.LG'',
      categories = [''cs.LG'', ''stat.ML''],
      links = [Link ''http://arxiv.org/pdf/2404.19756v4''],
      pdf_path = ''./2404.19756v4.KAN.pdf'',
      pdf_pages = Inr [''Abstract. '', ''References.'']\<rparr>"

definition paper_b :: search_result where
  "paper_b =
     \<lparr>entry_id = ''http://arxiv.org/abs/2408.10205v1'',
      updated = \<lparr>dt_date = Date 2024 8 19, dt_hour = 17, dt_minute = 59, dt_second = 4\<rparr>,
      published = \<lparr>dt_date = Date 2024 8 19, dt_hour = 17, dt_minute = 59, dt_second = 4\<rparr>,
      title = ''KAN 2.0'',
      authors = [Author ''Z. Liu''],
      summary = ''Symbolic formulas.'',
      comment = None,
      journal_ref = None,
      doi = Some ''10.1000/182'',
      primary_category = ''cs.LG'',
      categories = [''cs.LG''],
      links = [],
      pdf_path = ''./2408.10205v1.KAN_2.0.pdf'',
      pdf_pages = Inr [''Page.'']\<rparr>"

text \<open>A result whose summary has a blank line in it.\<close>

definition paper_blank :: search_result where
  "paper_blank = paper_b\<lparr>summary := [CHR ''A'', newline, newline, CHR ''B'']\<rparr>"

section \<open>Properties\<close>

subsection \<open>Basic facts\<close>

lemma fetch_results_eq:
  "fetch_results e cfg query w =
     (client_results e (slice_to (Some (ARXIV_MAX_QUERY_LENGTH cfg)) query) (top_k_results cfg),
      w\<lparr>trace := trace w @
         [Search (slice_to (Some (ARXIV_MAX_QUERY_LENGTH cfg)) query) (top_k_results cfg)]\<rparr>)"
  by (simp add: fetch_results_def Let_def)

lemma slice_to_nonneg: "0 \<le> k \<Longrightarrow> slice_to (Some k) s = take (nat k) s"
  by (simp add: slice_to_def)

lemma slice_to_None: "slice_to None s = s"
  by (simp add: slice_to_def)

text \<open>
  A negative limit does not cut at a length: Python counts from the end. The properties
  of lengths below are therefore stated for limits that are not negative.
\<close>

lemma slice_to_negative_example: "slice_to (Some (- 1)) ''abc'' = ''ab''"
  by (simp add: slice_to_def)

subsection \<open>The submitted query\<close>

text \<open>
  Claim C8. The maximum query length being a length (not negative), the query that
  \<^verbatim>\<open>_fetch_results\<close> submits to the client, and that the trace records, is the first
  \<open>ARXIV_MAX_QUERY_LENGTH\<close> characters of the query it is given: for a longer query that is
  a string of exactly that many characters, and a query of at most that length is
  submitted unchanged.
\<close>

theorem C8_submitted_query:
  assumes "0 \<le> ARXIV_MAX_QUERY_LENGTH cfg"
  shows "fst (fetch_results e cfg query w) =
           client_results e (take (nat (ARXIV_MAX_QUERY_LENGTH cfg)) query) (top_k_results cfg)
       \<and> trace (snd (fetch_results e cfg query w)) =
           trace w @ [Search (take (nat (ARXIV_MAX_QUERY_LENGTH cfg)) query) (top_k_results cfg)]
       \<and> (ARXIV_MAX_QUERY_LENGTH cfg < int (length query) \<longrightarrow>
            length (take (nat (ARXIV_MAX_QUERY_LENGTH cfg)) query) = nat (ARXIV_MAX_QUERY_LENGTH cfg))
       \<and> (int (length query) \<le> ARXIV_MAX_QUERY_LENGTH cfg \<longrightarrow>
            take (nat (ARXIV_MAX_QUERY_LENGTH cfg)) query = query)"
  using assms by (auto simp: fetch_results_eq slice_to_nonneg)

theorem C8_submitted_query_witness:
  "(0::int) \<le> ARXIV_MAX_QUERY_LENGTH (default_config\<lparr>ARXIV_MAX_QUERY_LENGTH := 3\<rparr>)
   \<and> ARXIV_MAX_QUERY_LENGTH (default_config\<lparr>ARXIV_MAX_QUERY_LENGTH := 3\<rparr>)
        < int (length ''tree of thought'')
   \<and> trace (snd (fetch_results (env_of True (Inr (Iterator [] None))) (default_config\<lparr>ARXIV_MAX_QUERY_LENGTH := 3\<rparr>)
        ''tree of thought'' world0)) = [Search ''tre'' 3]
   \<and> int (length ''KAN'') \<le> ARXIV_MAX_QUERY_LENGTH (default_config\<lparr>ARXIV_MAX_QUERY_LENGTH := 3\<rparr>)
   \<and> trace (snd (fetch_results (env_of True (Inr (Iterator [] None))) (default_config\<lparr>ARXIV_MAX_QUERY_LENGTH := 3\<rparr>)
        ''KAN'' world0)) = [Search ''KAN'' 3]"
  using C8_submitted_query [of "default_config\<lparr>ARXIV_MAX_QUERY_LENGTH := 3\<rparr>"
          "env_of True (Inr (Iterator [] None))" "''tree of thought''" world0]
        C8_submitted_query [of "default_config\<lparr>ARXIV_MAX_QUERY_LENGTH := 3\<rparr>"
          "env_of True (Inr (Iterator [] None))" "''KAN''" world0]
  by (simp add: default_config_def world0_def)

subsection \<open>Summaries as Documents\<close>

text \<open>
  Claim C2. When the search succeeds with a non-empty sequence of results (the iterator
  that the client gives for the submitted query gives them and ends without raising),
  \<^verbatim>\<open>get_summaries_as_docs\<close> returns one Document per result, in the same order;
  the content of each is the summary of its result as it is, whatever
  \<open>doc_content_chars_max\<close> is, and its metadata has exactly the keys Entry ID, Published
  (the date of the \<open>updated\<close> timestamp), Title and Authors (the names joined with a comma
  and a space).
\<close>

theorem C2_summaries_as_docs:
  assumes "client_results e (slice_to (Some (ARXIV_MAX_QUERY_LENGTH cfg)) query) (top_k_results cfg)
             = Inr (Iterator results None)"
    and "results \<noteq> []"
  shows "\<exists>docs. fst (get_summaries_as_docs e cfg query w) = Inr docs
           \<and> length docs = length results
           \<and> (\<forall>i < length results.
                page_content (docs ! i) = summary (results ! i)
              \<and> metadata (docs ! i) =
                  [(''Entry ID'', MStr (entry_id (results ! i))),
                   (''Published'', MDate (dt_date (updated (results ! i)))),
                   (''Title'', MStr (title (results ! i))),
                   (''Authors'', MStr (str_join '', '' (map name (authors (results ! i)))))]
              \<and> keys (docs ! i) = [''Entry ID'', ''Published'', ''Title'', ''Authors''])"
  using assms by (simp add: get_summaries_as_docs_def fetch_results_eq keys_def iterate_def)

theorem C2_summaries_as_docs_witness:
  "client_results (env_of True (Inr (Iterator [paper_a, paper_b] None)))
      (slice_to (Some (ARXIV_MAX_QUERY_LENGTH default_config)) ''KAN'') (top_k_results default_config)
     = Inr (Iterator [paper_a, paper_b] None)
   \<and> [paper_a, paper_b] \<noteq> []
   \<and> (\<exists>docs. fst (get_summaries_as_docs (env_of True (Inr (Iterator [paper_a, paper_b] None))) default_config
                  ''KAN'' world0) = Inr docs
        \<and> length docs = 2
        \<and> page_content (docs ! 0) = ''Networks with learnable edges.''
        \<and> page_content (docs ! 1) = ''Symbolic formulas.''
        \<and> metadata (docs ! 0) =
            [(''Entry ID'', MStr ''http://arxiv.org/abs/2404.19756v4''),
             (''Published'', MDate (Date 2024 6 16)),
             (''Title'', MStr ''KAN''),
             (''Authors'', MStr ''Z. Liu, M. Tegmark'')])"
proof -
  have h: "client_results (env_of True (Inr (Iterator [paper_a, paper_b] None)))
      (slice_to (Some (ARXIV_MAX_QUERY_LENGTH default_config)) ''KAN'') (top_k_results default_config)
     = Inr (Iterator [paper_a, paper_b] None)"
    by (simp add: env_of_def)
  from C2_summaries_as_docs [OF h, of world0]
  obtain docs where d: "fst (get_summaries_as_docs (env_of True (Inr (Iterator [paper_a, paper_b] None)))
        default_config ''KAN'' world0) = Inr docs" "length docs = 2"
     and a: "\<forall>i < length [paper_a, paper_b].
                page_content (docs ! i) = summary ([paper_a, paper_b] ! i)
              \<and> metadata (docs ! i) =
                  [(''Entry ID'', MStr (entry_id ([paper_a, paper_b] ! i))),
                   (''Published'', MDate (dt_date (updated ([paper_a, paper_b] ! i)))),
                   (''Title'', MStr (title ([paper_a, paper_b] ! i))),
                   (''Authors'', MStr (str_join '', '' (map name (authors ([paper_a, paper_b] ! i)))))]
              \<and> keys (docs ! i) = [''Entry ID'', ''Published'', ''Title'', ''Authors'']"
    by auto
  from a have "page_content (docs ! 0) = summary paper_a"
      "page_content (docs ! 1) = summary paper_b"
      "metadata (docs ! 0) =
                  [(''Entry ID'', MStr (entry_id paper_a)),
                   (''Published'', MDate (dt_date (updated paper_a))),
                   (''Title'', MStr (title paper_a)),
                   (''Authors'', MStr (str_join '', '' (map name (authors paper_a))))]"
    by auto
  with d h show ?thesis
    by (auto simp: paper_a_def paper_b_def)
qed

subsection \<open>The joined text of \<^verbatim>\<open>run\<close>\<close>

text \<open>
  Splitting on the blank line: the number of pieces does not depend on the piece
  collected so far, a string without two newlines in a row is one piece, and a block
  without two newlines in a row, followed by the separator and a text that does not start
  with a newline, adds one piece to those of that text. (The block may end with a
  newline: the separator found is then one character to the left, and the count is the
  same.)
\<close>

lemma length_split_from_Nil: "length (split_from cur s) = length (split_from [] s)"
proof (induction s arbitrary: cur rule: induct_list012)
  case 1
  show ?case by simp
next
  case (2 x)
  show ?case by simp
next
  case (3 x y zs)
  show ?case
  proof (cases "x = newline \<and> y = newline")
    case True
    then show ?thesis by simp
  next
    case False
    have "length (split_from (cur @ [x]) (y # zs)) = length (split_from [] (y # zs))"
      by (rule "3.IH"(2))
    moreover have "length (split_from [x] (y # zs)) = length (split_from [] (y # zs))"
      by (rule "3.IH"(2))
    ultimately show ?thesis using False by auto
  qed
qed

lemma split_from_no_double_newline:
  "no_double_newline s \<Longrightarrow> split_from cur s = [cur @ s]"
  by (induction cur s rule: split_from.induct) auto

lemma length_split_from_block:
  "no_double_newline b \<Longrightarrow> x \<noteq> newline \<Longrightarrow>
   length (split_from cur (b @ newline # newline # x # t)) = Suc (length (split_from [] (x # t)))"
proof (induction cur b rule: split_from.induct)
  case (1 cur)
  then show ?case by simp
next
  case (2 cur c)
  then show ?case
    using length_split_from_Nil [of "[newline]" "x # t"] by simp
next
  case (3 cur c d s)
  from "3.prems" have nd: "c \<noteq> newline \<or> d \<noteq> newline" and rest: "no_double_newline (d # s)"
    by simp_all
  have "length (split_from (cur @ [c]) ((d # s) @ newline # newline # x # t))
          = Suc (length (split_from [] (x # t)))"
    using "3.IH" nd rest "3.prems"(2) by blast
  then show ?case using nd by auto
qed

lemma str_join_head:
  "b \<noteq> [] \<Longrightarrow> hd b \<noteq> newline \<Longrightarrow>
   \<exists>x t. str_join sep (b # bs) = x # t \<and> x \<noteq> newline"
  by (cases b; cases bs) auto

lemma length_split_str_join:
  "bs \<noteq> [] \<Longrightarrow> \<forall>b \<in> set bs. no_double_newline b \<and> b \<noteq> [] \<and> hd b \<noteq> newline \<Longrightarrow>
   length (split_from [] (str_join [newline, newline] bs)) = length bs"
proof (induction bs rule: induct_list012)
  case 1
  then show ?case by simp
next
  case (2 x)
  then show ?case by (simp add: split_from_no_double_newline)
next
  case (3 x y ys)
  from "3.prems" obtain c t where ct: "str_join [newline, newline] (y # ys) = c # t" "c \<noteq> newline"
    using str_join_head [of y "[newline, newline]" ys] by auto
  from "3.prems" have "no_double_newline x" by simp
  then have "length (split_from [] (x @ newline # newline # c # t)) = Suc (length (split_from [] (c # t)))"
    using ct(2) by (rule length_split_from_block)
  moreover have "length (split_from [] (c # t)) = length (y # ys)"
    using "3.IH"(2) "3.prems" ct(1) by simp
  ultimately show ?case using ct(1) by simp
qed

lemma rendered_block_head: "rendered_block r \<noteq> [] \<and> hd (rendered_block r) \<noteq> newline"
  by (simp add: rendered_block_def)


text \<open>
  Claim C3, as amended. When the search succeeds with a non-empty sequence of results (the
  iterator that the client gives for the submitted query gives them and ends without
  raising), \<^verbatim>\<open>run\<close> returns the four-line blocks of the results, in order,
  joined by a blank line and cut by the slice \<^verbatim>\<open>[:doc_content_chars_max]\<close>: nothing is cut
  when the limit is \<^verbatim>\<open>None\<close>, and for a limit \<open>n\<close> that is not negative the text is the
  first \<open>n\<close> characters of the joined blocks, so at most \<open>n\<close> long. If no block contains
  two newlines in a row, splitting the joined blocks (before the cut) on the blank line
  gives exactly one piece per result.
\<close>

theorem C3_run_joined_text:
  assumes "client_results e (slice_to (Some (ARXIV_MAX_QUERY_LENGTH cfg)) query) (top_k_results cfg)
             = Inr (Iterator results None)"
    and "results \<noteq> []"
  shows "fst (run e cfg query w) =
           Inr (slice_to (doc_content_chars_max cfg)
                  (str_join [newline, newline] (map rendered_block results)))
       \<and> (doc_content_chars_max cfg = None \<longrightarrow>
            fst (run e cfg query w) = Inr (str_join [newline, newline] (map rendered_block results)))
       \<and> (\<forall>n. doc_content_chars_max cfg = Some n \<and> 0 \<le> n \<longrightarrow>
            (\<exists>out. fst (run e cfg query w) = Inr out
               \<and> out = take (nat n) (str_join [newline, newline] (map rendered_block results))
               \<and> int (length out) \<le> n))
       \<and> ((\<forall>r \<in> set results. no_double_newline (rendered_block r)) \<longrightarrow>
            length (split_double_newline (str_join [newline, newline] (map rendered_block results)))
              = length results)"
proof -
  have blocks: "map rendered_block results =
                map (\<lambda>result.
                        ''Published: '' @ str_of_date (dt_date (updated result)) @ [newline]
                        @ ''Title: '' @ title result @ [newline]
                        @ ''Authors: '' @ str_join '', '' (map name (authors result)) @ [newline]
                        @ ''Summary: '' @ summary result) results"
    by (simp add: rendered_block_def)
  have out: "fst (run e cfg query w) =
           Inr (slice_to (doc_content_chars_max cfg)
                  (str_join [newline, newline] (map rendered_block results)))"
    using assms unfolding blocks by (simp add: run_def fetch_results_eq iterate_def)
  have none: "doc_content_chars_max cfg = None \<longrightarrow>
            fst (run e cfg query w) = Inr (str_join [newline, newline] (map rendered_block results))"
    using out by (simp add: slice_to_None)
  have some: "\<forall>n. doc_content_chars_max cfg = Some n \<and> 0 \<le> n \<longrightarrow>
            (\<exists>out. fst (run e cfg query w) = Inr out
               \<and> out = take (nat n) (str_join [newline, newline] (map rendered_block results))
               \<and> int (length out) \<le> n)"
    using out by (auto simp: slice_to_nonneg)
  have split: "(\<forall>r \<in> set results. no_double_newline (rendered_block r)) \<longrightarrow>
            length (split_double_newline (str_join [newline, newline] (map rendered_block results)))
              = length results"
  proof
    assume a: "\<forall>r \<in> set results. no_double_newline (rendered_block r)"
    have "length (split_from [] (str_join [newline, newline] (map rendered_block results)))
            = length (map rendered_block results)"
      using assms(2) a rendered_block_head by (intro length_split_str_join) auto
    then show "length (split_double_newline (str_join [newline, newline] (map rendered_block results)))
              = length results"
      by (simp add: split_double_newline_def)
  qed
  from out none some split show ?thesis by blast
qed

text \<open>The blocks of the example results.\<close>

lemma str_of_date_examples:
  "str_of_date (Date 2024 6 16) = ''2024-06-16''"
  "str_of_date (Date 2024 8 19) = ''2024-08-19''"
  "str_of_date (Date 2024 4 30) = ''2024-04-30''"
  by (simp_all add: str_of_date_def digit_def)

lemma rendered_block_paper_a:
  "rendered_block paper_a =
     ''Published: 2024-06-16'' @ [newline] @ ''Title: KAN'' @ [newline]
     @ ''Authors: Z. Liu, M. Tegmark'' @ [newline] @ ''Summary: Networks with learnable edges.''"
  by (simp add: rendered_block_def paper_a_def str_of_date_examples)

lemma rendered_block_paper_b:
  "rendered_block paper_b =
     ''Published: 2024-08-19'' @ [newline] @ ''Title: KAN 2.0'' @ [newline]
     @ ''Authors: Z. Liu'' @ [newline] @ ''Summary: Symbolic formulas.''"
  by (simp add: rendered_block_def paper_b_def str_of_date_examples)

lemma rendered_block_paper_blank:
  "rendered_block paper_blank =
     ''Published: 2024-08-19'' @ [newline] @ ''Title: KAN 2.0'' @ [newline]
     @ ''Authors: Z. Liu'' @ [newline] @ ''Summary: A'' @ [newline, newline] @ ''B''"
  by (simp add: rendered_block_def paper_blank_def paper_b_def str_of_date_examples)

theorem C3_run_joined_text_witness:
  "client_results (env_of True (Inr (Iterator [paper_a, paper_b] None)))
      (slice_to (Some (ARXIV_MAX_QUERY_LENGTH (default_config\<lparr>doc_content_chars_max := Some 30\<rparr>)))
         ''KAN'')
      (top_k_results (default_config\<lparr>doc_content_chars_max := Some 30\<rparr>))
     = Inr (Iterator [paper_a, paper_b] None)
   \<and> [paper_a, paper_b] \<noteq> []
   \<and> fst (run (env_of True (Inr (Iterator [paper_a, paper_b] None)))
            (default_config\<lparr>doc_content_chars_max := Some 30\<rparr>) ''KAN'' world0)
       = Inr (''Published: 2024-06-16'' @ [newline] @ ''Title: K'')
   \<and> no_double_newline (rendered_block paper_a)
   \<and> no_double_newline (rendered_block paper_b)
   \<and> length (split_double_newline
               (str_join [newline, newline] (map rendered_block [paper_a, paper_b]))) = 2"
proof -
  have h: "client_results (env_of True (Inr (Iterator [paper_a, paper_b] None)))
      (slice_to (Some (ARXIV_MAX_QUERY_LENGTH (default_config\<lparr>doc_content_chars_max := Some 30\<rparr>)))
         ''KAN'')
      (top_k_results (default_config\<lparr>doc_content_chars_max := Some 30\<rparr>))
     = Inr (Iterator [paper_a, paper_b] None)"
    by (simp add: env_of_def)
  have na: "no_double_newline (rendered_block paper_a)"
    by (simp add: rendered_block_paper_a)
  have nb: "no_double_newline (rendered_block paper_b)"
    by (simp add: rendered_block_paper_b)
  note t = C3_run_joined_text [OF h, of world0]
  from t have "fst (run (env_of True (Inr (Iterator [paper_a, paper_b] None)))
            (default_config\<lparr>doc_content_chars_max := Some 30\<rparr>) ''KAN'' world0)
       = Inr (slice_to (Some 30) (str_join [newline, newline] (map rendered_block [paper_a, paper_b])))"
    by (simp add: default_config_def)
  then have r: "fst (run (env_of True (Inr (Iterator [paper_a, paper_b] None)))
            (default_config\<lparr>doc_content_chars_max := Some 30\<rparr>) ''KAN'' world0)
       = Inr (''Published: 2024-06-16'' @ [newline] @ ''Title: K'')"
    by (simp add: slice_to_def rendered_block_paper_a)
  from t na nb have "length (split_double_newline
               (str_join [newline, newline] (map rendered_block [paper_a, paper_b]))) = 2"
    by simp
  with h r na nb show ?thesis by simp
qed

text \<open>
  Without the condition on the blocks the count fails: the one result \<open>paper_blank\<close>,
  whose summary has a blank line, gives a text that splits into two pieces.
\<close>

theorem C3_split_counterexample:
  "client_results (env_of True (Inr (Iterator [paper_blank] None)))
      (slice_to (Some (ARXIV_MAX_QUERY_LENGTH (default_config\<lparr>doc_content_chars_max := None\<rparr>)))
         ''KAN'')
      (top_k_results (default_config\<lparr>doc_content_chars_max := None\<rparr>))
     = Inr (Iterator [paper_blank] None)
   \<and> fst (run (env_of True (Inr (Iterator [paper_blank] None)))
            (default_config\<lparr>doc_content_chars_max := None\<rparr>) ''KAN'' world0)
       = Inr (''Published: 2024-08-19'' @ [newline] @ ''Title: KAN 2.0'' @ [newline]
              @ ''Authors: Z. Liu'' @ [newline] @ ''Summary: A'' @ [newline, newline] @ ''B'')
   \<and> split_double_newline
        (''Published: 2024-08-19'' @ [newline] @ ''Title: KAN 2.0'' @ [newline]
         @ ''Authors: Z. Liu'' @ [newline] @ ''Summary: A'' @ [newline, newline] @ ''B'')
       = [''Published: 2024-08-19'' @ [newline] @ ''Title: KAN 2.0'' @ [newline]
            @ ''Authors: Z. Liu'' @ [newline] @ ''Summary: A'',
          ''B'']
   \<and> length [paper_blank] = 1"
proof -
  have blocks: "map (\<lambda>result.
                        ''Published: '' @ str_of_date (dt_date (updated result)) @ [newline]
                        @ ''Title: '' @ title result @ [newline]
                        @ ''Authors: '' @ str_join '', '' (map name (authors result)) @ [newline]
                        @ ''Summary: '' @ summary result) [paper_blank]
                = map rendered_block [paper_blank]"
    by (simp add: rendered_block_def)
  have "fst (run (env_of True (Inr (Iterator [paper_blank] None)))
            (default_config\<lparr>doc_content_chars_max := None\<rparr>) ''KAN'' world0)
       = Inr (rendered_block paper_blank)"
    unfolding run_def fetch_results_eq Let_def
    by (simp add: env_of_def default_config_def slice_to_None rendered_block_def iterate_def)
  then show ?thesis
    by (simp add: rendered_block_paper_blank split_double_newline_def env_of_def)
qed

subsection \<open>The generator, step by step\<close>

lemma lazy_load_eq: "lazy_load e cfg query w = (Inr (Created query), w)"
  by (simp add: lazy_load_def)

lemma load_eq: "load e cfg query w = list_of e cfg (Created query) w"
  by (simp add: load_def lazy_load_def)

lemma lazy_load_next_no_fitz:
  "\<not> fitz_available e \<Longrightarrow>
   lazy_load_next e cfg (Created query) w =
     (Inl (ImportError ''PyMuPDF package not found, please install it with `pip install pymupdf`''),
      Exhausted, w)"
  by (simp add: lazy_load_next_def)

lemma lazy_load_next_Created:
  "fitz_available e \<Longrightarrow>
   lazy_load_next e cfg (Created query) w =
     (case client_results e
             (slice_to (Some (ARXIV_MAX_QUERY_LENGTH cfg))
                (remove_char CHR ''-'' (remove_char CHR '':'' query)))
             (top_k_results cfg) of
        Inl ex \<Rightarrow>
          (Inl ex, Exhausted,
           w\<lparr>trace := trace w @
              [Search (slice_to (Some (ARXIV_MAX_QUERY_LENGTH cfg))
                         (remove_char CHR ''-'' (remove_char CHR '':'' query)))
                 (top_k_results cfg)]\<rparr>)
      | Inr results \<Rightarrow>
          for_result_in cfg results
           (w\<lparr>trace := trace w @
              [Search (slice_to (Some (ARXIV_MAX_QUERY_LENGTH cfg))
                         (remove_char CHR ''-'' (remove_char CHR '':'' query)))
                 (top_k_results cfg)]\<rparr>))"
  by (simp add: lazy_load_next_def fetch_results_eq split: sum.splits)

lemma for_result_in_Nil:
  "for_result_in cfg (Iterator [] None) w = (Inr None, Exhausted, w)"
  "for_result_in cfg (Iterator [] (Some ex)) w = (Inl ex, Exhausted, w)"
  by (simp_all add: for_result_in_def)

lemma list_of_Inl:
  "lazy_load_next e cfg g w = (Inl ex, g', w') \<Longrightarrow> list_of e cfg g w = (Inl ex, w')"
  by (subst list_of.simps) simp

lemma list_of_None:
  "lazy_load_next e cfg g w = (Inr None, g', w') \<Longrightarrow> list_of e cfg g w = (Inr [], w')"
  by (subst list_of.simps) simp

lemma list_of_Some:
  "lazy_load_next e cfg g w = (Inr (Some d), g', w') \<Longrightarrow>
   list_of e cfg g w =
     (case list_of e cfg g' w' of
        (Inl ex, w'') \<Rightarrow> (Inl ex, w'')
      | (Inr ds, w'') \<Rightarrow> (Inr (d # ds), w''))"
  by (subst list_of.simps) simp

subsection \<open>No results\<close>

text \<open>
  Claim C9. When the search succeeds with no result (the iterator that the client gives
  for the submitted query ends at once, without raising), \<^verbatim>\<open>run\<close> returns
  the string \<^verbatim>\<open>No good Arxiv Result was found\<close> and \<^verbatim>\<open>get_summaries_as_docs\<close> the empty list;
  \<^verbatim>\<open>load\<close>, which submits the query without its colons and hyphens and reaches the search
  when \<^verbatim>\<open>fitz\<close> can be imported, returns the empty list, and the generator of
  \<^verbatim>\<open>lazy_load\<close> stops at its first \<^verbatim>\<open>next\<close>. None of them raises.
\<close>

theorem C9_zero_results:
  "(client_results e (slice_to (Some (ARXIV_MAX_QUERY_LENGTH cfg)) query) (top_k_results cfg) = Inr (Iterator [] None)
      \<longrightarrow> fst (run e cfg query w) = Inr ''No good Arxiv Result was found''
        \<and> fst (get_summaries_as_docs e cfg query w) = Inr [])
   \<and> (fitz_available e
      \<and> client_results e
          (slice_to (Some (ARXIV_MAX_QUERY_LENGTH cfg))
             (remove_char CHR ''-'' (remove_char CHR '':'' query)))
          (top_k_results cfg) = Inr (Iterator [] None)
      \<longrightarrow> fst (load e cfg query w) = Inr []
        \<and> (\<exists>g w'. lazy_load e cfg query w = (Inr g, w')
              \<and> fst (lazy_load_next e cfg g w') = Inr None))"
proof -
  have a: "fst (run e cfg query w) = Inr ''No good Arxiv Result was found''
        \<and> fst (get_summaries_as_docs e cfg query w) = Inr []"
    if "client_results e (slice_to (Some (ARXIV_MAX_QUERY_LENGTH cfg)) query) (top_k_results cfg) = Inr (Iterator [] None)"
    using that by (simp add: run_def get_summaries_as_docs_def fetch_results_eq iterate_def)
  have b: "fst (load e cfg query w) = Inr []
        \<and> (\<exists>g w'. lazy_load e cfg query w = (Inr g, w')
              \<and> fst (lazy_load_next e cfg g w') = Inr None)"
    if f: "fitz_available e"
      and c: "client_results e
          (slice_to (Some (ARXIV_MAX_QUERY_LENGTH cfg))
             (remove_char CHR ''-'' (remove_char CHR '':'' query)))
          (top_k_results cfg) = Inr (Iterator [] None)"
  proof -
    have n: "lazy_load_next e cfg (Created query) w =
       (Inr None, Exhausted,
        w\<lparr>trace := trace w @
              [Search (slice_to (Some (ARXIV_MAX_QUERY_LENGTH cfg))
                         (remove_char CHR ''-'' (remove_char CHR '':'' query)))
                 (top_k_results cfg)]\<rparr>)"
      using f c by (simp add: lazy_load_next_Created for_result_in_Nil)
    from list_of_None [OF n] have "fst (load e cfg query w) = Inr []"
      by (simp add: load_eq)
    moreover from n have "\<exists>g w'. lazy_load e cfg query w = (Inr g, w')
              \<and> fst (lazy_load_next e cfg g w') = Inr None"
      by (simp add: lazy_load_eq)
    ultimately show ?thesis by simp
  qed
  from a b show ?thesis by blast
qed

theorem C9_zero_results_witness:
  "client_results (env_of True (Inr (Iterator [] None)))
      (slice_to (Some (ARXIV_MAX_QUERY_LENGTH default_config)) ''no such paper'')
      (top_k_results default_config) = Inr (Iterator [] None)
   \<and> fitz_available (env_of True (Inr (Iterator [] None)))
   \<and> client_results (env_of True (Inr (Iterator [] None)))
      (slice_to (Some (ARXIV_MAX_QUERY_LENGTH default_config))
         (remove_char CHR ''-'' (remove_char CHR '':'' ''no such paper'')))
      (top_k_results default_config) = Inr (Iterator [] None)
   \<and> fst (run (env_of True (Inr (Iterator [] None))) default_config ''no such paper'' world0)
       = Inr ''No good Arxiv Result was found''
   \<and> fst (get_summaries_as_docs (env_of True (Inr (Iterator [] None))) default_config
            ''no such paper'' world0) = Inr []
   \<and> fst (load (env_of True (Inr (Iterator [] None))) default_config ''no such paper'' world0)
       = Inr []"
  using C9_zero_results [of "env_of True (Inr (Iterator [] None))" default_config
          "''no such paper''" world0]
  by (simp add: env_of_def)

subsection \<open>A missing PDF reader\<close>

text \<open>
  Claim C7, as amended. When \<^verbatim>\<open>fitz\<close> cannot be imported, \<^verbatim>\<open>load\<close> raises
  \<^verbatim>\<open>ImportError\<close> at the call. The call of \<^verbatim>\<open>lazy_load\<close> itself raises nothing and gives a
  generator, whose first \<^verbatim>\<open>next\<close> raises the \<^verbatim>\<open>ImportError\<close>. In both cases the world is
  left as it was, so no search request has been issued, and the error reaches the caller
  as an exception, not as a value.
\<close>

theorem C7_missing_fitz:
  assumes "\<not> fitz_available e"
  shows "(\<exists>m. load e cfg query w = (Inl (ImportError m), w))
       \<and> (\<exists>g. lazy_load e cfg query w = (Inr g, w)
            \<and> (\<exists>m. lazy_load_next e cfg g w = (Inl (ImportError m), Exhausted, w)))"
  using assms list_of_Inl [OF lazy_load_next_no_fitz [OF assms], of cfg query w]
  by (simp add: load_eq lazy_load_eq lazy_load_next_no_fitz)

theorem C7_missing_fitz_witness:
  "\<not> fitz_available (env_of False (Inr (Iterator [paper_a] None)))
   \<and> (\<exists>m. load (env_of False (Inr (Iterator [paper_a] None))) default_config ''KAN'' world0
            = (Inl (ImportError m), world0))
   \<and> (\<exists>m. lazy_load_next (env_of False (Inr (Iterator [paper_a] None))) default_config (Created ''KAN'') world0
            = (Inl (ImportError m), Exhausted, world0))"
proof -
  have h: "\<not> fitz_available (env_of False (Inr (Iterator [paper_a] None)))"
    by (simp add: env_of_def)
  from h C7_missing_fitz [OF h, of default_config "''KAN''" world0]
  show ?thesis by (simp add: lazy_load_def)
qed

text \<open>
  The call of \<^verbatim>\<open>lazy_load\<close> does not fail when \<^verbatim>\<open>fitz\<close> is missing: it returns the
  generator, since the body of a generator function starts to run at the first \<^verbatim>\<open>next\<close>.
\<close>

theorem C7_lazy_load_call_counterexample:
  "\<not> fitz_available (env_of False (Inr (Iterator [paper_a] None)))
   \<and> lazy_load (env_of False (Inr (Iterator [paper_a] None))) default_config ''KAN'' world0
       = (Inr (Created ''KAN''), world0)"
  by (simp add: env_of_def lazy_load_def)

subsection \<open>The generator on the path without errors\<close>

lemma for_result_in_Some:
  "for_result_in cfg results w = (Inr (Some d), g', w') \<Longrightarrow>
   \<exists>result rest pages.
     pending results = result # rest \<and> pdf_pages result = Inr pages
     \<and> g' = Yielded (Iterator rest (failure results)) (pdf_path result)
     \<and> w' = w\<lparr>files := insert (pdf_path result) (files w),
               trace := trace w @ [Download (pdf_path result)]\<rparr>
     \<and> page_content d = slice_to (doc_content_chars_max cfg) (concat pages)
     \<and> keys d = [''Published'', ''Title'', ''Authors'', ''Summary'']
                @ (if load_all_available_meta cfg
                   then [''entry_id'', ''published_first_time'', ''comment'', ''journal_ref'',
                         ''doi'', ''primary_category'', ''categories'', ''links'']
                   else [])"
  by (auto simp: for_result_in_def download_pdf_def keys_def Let_def
           split: list.splits sum.splits option.splits)

lemma lazy_load_next_Some:
  "lazy_load_next e cfg g w = (Inr (Some d), g', w') \<Longrightarrow>
   \<exists>results w1. for_result_in cfg results w1 = (Inr (Some d), g', w')"
  by (auto simp: lazy_load_next_def split: generator.splits if_splits prod.splits sum.splits)

lemma list_of_docs:
  assumes "\<And>g w d g' w'. lazy_load_next e cfg g w = (Inr (Some d), g', w') \<Longrightarrow> P d"
    and "list_of e cfg g w = (Inr docs, w1)"
    and "d \<in> set docs"
  shows "P d"
  using assms
proof (induction e cfg g w arbitrary: docs w1 rule: list_of.induct)
  case (1 e cfg g w)
  note step = "1.prems"(1)
  obtain r g' w' where n: "lazy_load_next e cfg g w = (r, g', w')"
    by (cases "lazy_load_next e cfg g w") auto
  show ?case
  proof (cases r)
    case (Inl ex)
    with n "1.prems"(2) show ?thesis by (simp add: list_of_Inl)
  next
    case (Inr o1)
    show ?thesis
    proof (cases o1)
      case None
      with n Inr "1.prems"(2,3) show ?thesis by (simp add: list_of_None)
    next
      case (Some d0)
      with n Inr have n': "lazy_load_next e cfg g w = (Inr (Some d0), g', w')" by simp
      obtain r2 w2 where l: "list_of e cfg g' w' = (r2, w2)"
        by (cases "list_of e cfg g' w'") auto
      from "1.prems"(2) list_of_Some [OF n'] l obtain ds where
        ds: "r2 = Inr ds" "docs = d0 # ds"
        by (cases r2) auto
      from "1.prems"(3) ds consider "d = d0" | "d \<in> set ds" by auto
      then show ?thesis
      proof cases
        case 1
        with step [OF n'] show ?thesis by simp
      next
        case 2
        have "list_of e cfg g' w' = (Inr ds, w2)" using l ds by simp
        from "1.IH" [OF n' [symmetric] refl refl refl step this 2]
        show ?thesis .
      qed
    qed
  qed
qed

lemma lazy_load_next_Yielded:
  "p \<in> files w \<Longrightarrow>
   lazy_load_next e cfg (Yielded rest p) w =
     for_result_in cfg rest (w\<lparr>files := files w - {p}, trace := trace w @ [Remove p]\<rparr>)"
  by (simp add: lazy_load_next_def os_remove_def)

lemma for_result_in_readable:
  "pdf_pages result = Inr pages \<Longrightarrow>
   \<exists>d. for_result_in cfg (Iterator (result # rest) f) w =
     (Inr (Some d), Yielded (Iterator rest f) (pdf_path result),
      w\<lparr>files := insert (pdf_path result) (files w),
        trace := trace w @ [Download (pdf_path result)]\<rparr>)"
  by (simp add: for_result_in_def download_pdf_def Let_def)

lemma for_result_in_unreadable:
  "pdf_pages result = Inl ex \<Longrightarrow>
   for_result_in cfg (Iterator (result # rest) f) w =
     (Inl ex, Exhausted,
      w\<lparr>files := insert (pdf_path result) (files w),
        trace := trace w @ [Download (pdf_path result)]\<rparr>)"
  by (simp add: for_result_in_def download_pdf_def)

lemma list_of_Yielded_world:
  "p \<in> files w \<Longrightarrow> list_of e cfg (Yielded (Iterator rest f) p) w = (Inr docs, w') \<Longrightarrow>
   files w' = files w - {p} - pdf_path ` set rest
   \<and> trace w' = trace w @ Remove p #
        concat (map (\<lambda>r. [Download (pdf_path r), Remove (pdf_path r)]) rest)
   \<and> length docs = length rest"
proof (induction rest arbitrary: p w docs)
  case Nil
  show ?case
  proof (cases f)
    case None
    have "lazy_load_next e cfg (Yielded (Iterator [] f) p) w =
            (Inr None, Exhausted, w\<lparr>files := files w - {p}, trace := trace w @ [Remove p]\<rparr>)"
      using Nil.prems(1) None by (simp add: lazy_load_next_Yielded for_result_in_Nil)
    from list_of_None [OF this] Nil.prems(2) show ?thesis by auto
  next
    case (Some ex)
    have "lazy_load_next e cfg (Yielded (Iterator [] f) p) w =
            (Inl ex, Exhausted, w\<lparr>files := files w - {p}, trace := trace w @ [Remove p]\<rparr>)"
      using Nil.prems(1) Some by (simp add: lazy_load_next_Yielded for_result_in_Nil)
    from list_of_Inl [OF this] Nil.prems(2) show ?thesis by simp
  qed
next
  case (Cons r rest)
  let ?w1 = "w\<lparr>files := files w - {p}, trace := trace w @ [Remove p]\<rparr>"
  let ?w2 = "?w1\<lparr>files := insert (pdf_path r) (files ?w1),
                  trace := trace ?w1 @ [Download (pdf_path r)]\<rparr>"
  show ?case
  proof (cases "pdf_pages r")
    case (Inl ex)
    have "lazy_load_next e cfg (Yielded (Iterator (r # rest) f) p) w = (Inl ex, Exhausted, ?w2)"
      using Cons.prems(1) Inl by (simp add: lazy_load_next_Yielded for_result_in_unreadable)
    from list_of_Inl [OF this] Cons.prems(2) show ?thesis by simp
  next
    case (Inr pages)
    from for_result_in_readable [OF Inr, of cfg rest f ?w1] obtain d where
      "for_result_in cfg (Iterator (r # rest) f) ?w1
         = (Inr (Some d), Yielded (Iterator rest f) (pdf_path r), ?w2)"
      by blast
    then have n: "lazy_load_next e cfg (Yielded (Iterator (r # rest) f) p) w
                  = (Inr (Some d), Yielded (Iterator rest f) (pdf_path r), ?w2)"
      using Cons.prems(1) by (simp add: lazy_load_next_Yielded)
    obtain r2 w3 where l: "list_of e cfg (Yielded (Iterator rest f) (pdf_path r)) ?w2 = (r2, w3)"
      by (cases "list_of e cfg (Yielded (Iterator rest f) (pdf_path r)) ?w2") auto
    from Cons.prems(2) list_of_Some [OF n] l obtain ds where
      ds: "r2 = Inr ds" "docs = d # ds" "w' = w3"
      by (cases r2) auto
    have "pdf_path r \<in> files ?w2" by simp
    from Cons.IH [OF this] l ds have
      "files w3 = files ?w2 - {pdf_path r} - pdf_path ` set rest
       \<and> trace w3 = trace ?w2 @ Remove (pdf_path r) #
            concat (map (\<lambda>r. [Download (pdf_path r), Remove (pdf_path r)]) rest)
       \<and> length ds = length rest"
      by simp
    with ds show ?thesis by auto
  qed
qed

lemma list_of_Yielded_readable:
  "p \<in> files w \<Longrightarrow> \<forall>r \<in> set rest. \<exists>pages. pdf_pages r = Inr pages \<Longrightarrow>
   \<exists>docs w'. list_of e cfg (Yielded (Iterator rest None) p) w = (Inr docs, w')"
proof (induction rest arbitrary: p w)
  case Nil
  have "lazy_load_next e cfg (Yielded (Iterator [] None) p) w =
          (Inr None, Exhausted, w\<lparr>files := files w - {p}, trace := trace w @ [Remove p]\<rparr>)"
    using Nil.prems(1) by (simp add: lazy_load_next_Yielded for_result_in_Nil)
  from list_of_None [OF this] show ?case by blast
next
  case (Cons r rest)
  let ?w1 = "w\<lparr>files := files w - {p}, trace := trace w @ [Remove p]\<rparr>"
  let ?w2 = "?w1\<lparr>files := insert (pdf_path r) (files ?w1),
                  trace := trace ?w1 @ [Download (pdf_path r)]\<rparr>"
  from Cons.prems(2) obtain pages where pages: "pdf_pages r = Inr pages" by auto
  from for_result_in_readable [OF pages, of cfg rest None ?w1] obtain d where
    "for_result_in cfg (Iterator (r # rest) None) ?w1
       = (Inr (Some d), Yielded (Iterator rest None) (pdf_path r), ?w2)"
    by blast
  then have n: "lazy_load_next e cfg (Yielded (Iterator (r # rest) None) p) w
                = (Inr (Some d), Yielded (Iterator rest None) (pdf_path r), ?w2)"
    using Cons.prems(1) by (simp add: lazy_load_next_Yielded)
  have "pdf_path r \<in> files ?w2" by simp
  from Cons.IH [OF this] Cons.prems(2) obtain ds w3 where
    "list_of e cfg (Yielded (Iterator rest None) (pdf_path r)) ?w2 = (Inr ds, w3)"
    by auto
  with list_of_Some [OF n] show ?case by simp
qed

text \<open>The whole of \<^verbatim>\<open>load\<close>.\<close>

lemma load_world:
  assumes fz: "fitz_available e"
    and c: "client_results e
              (slice_to (Some (ARXIV_MAX_QUERY_LENGTH cfg))
                 (remove_char CHR ''-'' (remove_char CHR '':'' query)))
              (top_k_results cfg) = Inr (Iterator results f)"
    and l: "load e cfg query w = (Inr docs, w')"
  shows "files w' = files w - pdf_path ` set results
       \<and> trace w' = trace w @
           Search (slice_to (Some (ARXIV_MAX_QUERY_LENGTH cfg))
                     (remove_char CHR ''-'' (remove_char CHR '':'' query)))
                  (top_k_results cfg) #
           concat (map (\<lambda>r. [Download (pdf_path r), Remove (pdf_path r)]) results)
       \<and> length docs = length results"
proof -
  let ?q = "slice_to (Some (ARXIV_MAX_QUERY_LENGTH cfg))
              (remove_char CHR ''-'' (remove_char CHR '':'' query))"
  let ?w0 = "w\<lparr>trace := trace w @ [Search ?q (top_k_results cfg)]\<rparr>"
  have n0: "lazy_load_next e cfg (Created query) w = for_result_in cfg (Iterator results f) ?w0"
    using fz c by (simp add: lazy_load_next_Created)
  from l have l': "list_of e cfg (Created query) w = (Inr docs, w')"
    by (simp add: load_eq)
  show ?thesis
  proof (cases results)
    case Nil
    show ?thesis
    proof (cases f)
      case None
      with n0 Nil have "lazy_load_next e cfg (Created query) w = (Inr None, Exhausted, ?w0)"
        by (simp add: for_result_in_Nil)
      from list_of_None [OF this] l' have "docs = []" "w' = ?w0" by simp_all
      with Nil show ?thesis by simp
    next
      case (Some ex)
      with n0 Nil have "lazy_load_next e cfg (Created query) w = (Inl ex, Exhausted, ?w0)"
        by (simp add: for_result_in_Nil)
      from list_of_Inl [OF this] l' show ?thesis by simp
    qed
  next
    case (Cons r rest)
    let ?w1 = "?w0\<lparr>files := insert (pdf_path r) (files ?w0),
                    trace := trace ?w0 @ [Download (pdf_path r)]\<rparr>"
    show ?thesis
    proof (cases "pdf_pages r")
      case (Inl ex)
      with n0 Cons have "lazy_load_next e cfg (Created query) w = (Inl ex, Exhausted, ?w1)"
        by (simp add: for_result_in_unreadable)
      from list_of_Inl [OF this] l' show ?thesis by simp
    next
      case (Inr pages)
      from for_result_in_readable [OF Inr, of cfg rest f ?w0] obtain d where
        "for_result_in cfg (Iterator (r # rest) f) ?w0
           = (Inr (Some d), Yielded (Iterator rest f) (pdf_path r), ?w1)"
        by blast
      with n0 Cons have n: "lazy_load_next e cfg (Created query) w
                             = (Inr (Some d), Yielded (Iterator rest f) (pdf_path r), ?w1)"
        by simp
      obtain r2 w3 where l2: "list_of e cfg (Yielded (Iterator rest f) (pdf_path r)) ?w1 = (r2, w3)"
        by (cases "list_of e cfg (Yielded (Iterator rest f) (pdf_path r)) ?w1") auto
      from l' list_of_Some [OF n] l2 obtain ds where
        ds: "r2 = Inr ds" "docs = d # ds" "w' = w3"
        by (cases r2) auto
      have m: "pdf_path r \<in> files ?w1" by simp
      have l3: "list_of e cfg (Yielded (Iterator rest f) (pdf_path r)) ?w1 = (Inr ds, w3)"
        using l2 ds(1) by simp
      note y = list_of_Yielded_world [OF m l3]
      from y have "files w3 = files ?w1 - {pdf_path r} - pdf_path ` set rest" by (rule conjunct1)
      then have fw: "files w3 = files w - pdf_path ` set (r # rest)"
        by (simp add: Diff_insert2 [symmetric] insert_Diff_if)
      from y have "trace w3 = trace ?w1 @ Remove (pdf_path r) #
              concat (map (\<lambda>r. [Download (pdf_path r), Remove (pdf_path r)]) rest)"
        by (rule conjunct2 [THEN conjunct1])
      then have tw: "trace w3 = trace w @ Search ?q (top_k_results cfg) #
           concat (map (\<lambda>r. [Download (pdf_path r), Remove (pdf_path r)]) (r # rest))"
        by simp
      from y have "length ds = length rest" by (rule conjunct2 [THEN conjunct2])
      then have ld: "length docs = length (r # rest)" using ds(2) by simp
      from fw tw ld have "files w' = files w - pdf_path ` set results"
        "trace w' = trace w @ Search ?q (top_k_results cfg) #
           concat (map (\<lambda>r. [Download (pdf_path r), Remove (pdf_path r)]) results)"
        "length docs = length results"
        unfolding ds(3) Cons by blast+
      then show ?thesis by simp
    qed
  qed
qed

lemma load_readable:
  assumes f: "fitz_available e"
    and c: "client_results e
              (slice_to (Some (ARXIV_MAX_QUERY_LENGTH cfg))
                 (remove_char CHR ''-'' (remove_char CHR '':'' query)))
              (top_k_results cfg) = Inr (Iterator results None)"
    and r: "\<forall>r \<in> set results. \<exists>pages. pdf_pages r = Inr pages"
  shows "\<exists>docs w'. load e cfg query w = (Inr docs, w')"
proof -
  let ?q = "slice_to (Some (ARXIV_MAX_QUERY_LENGTH cfg))
              (remove_char CHR ''-'' (remove_char CHR '':'' query))"
  let ?w0 = "w\<lparr>trace := trace w @ [Search ?q (top_k_results cfg)]\<rparr>"
  have n0: "lazy_load_next e cfg (Created query) w
              = for_result_in cfg (Iterator results None) ?w0"
    using f c by (simp add: lazy_load_next_Created)
  show ?thesis
  proof (cases results)
    case Nil
    with n0 have "lazy_load_next e cfg (Created query) w = (Inr None, Exhausted, ?w0)"
      by (simp add: for_result_in_Nil)
    from list_of_None [OF this] show ?thesis by (simp add: load_eq)
  next
    case (Cons r1 rest)
    let ?w1 = "?w0\<lparr>files := insert (pdf_path r1) (files ?w0),
                    trace := trace ?w0 @ [Download (pdf_path r1)]\<rparr>"
    from r Cons obtain pages where pages: "pdf_pages r1 = Inr pages" by auto
    from for_result_in_readable [OF pages, of cfg rest None ?w0] obtain d where
      "for_result_in cfg (Iterator (r1 # rest) None) ?w0
         = (Inr (Some d), Yielded (Iterator rest None) (pdf_path r1), ?w1)"
      by blast
    with n0 Cons have n: "lazy_load_next e cfg (Created query) w
                           = (Inr (Some d), Yielded (Iterator rest None) (pdf_path r1), ?w1)"
      by simp
    have "pdf_path r1 \<in> files ?w1" by simp
    from list_of_Yielded_readable [OF this, of rest e cfg] r Cons obtain ds w3 where
      "list_of e cfg (Yielded (Iterator rest None) (pdf_path r1)) ?w1 = (Inr ds, w3)"
      by auto
    with list_of_Some [OF n] show ?thesis by (simp add: load_eq)
  qed
qed

lemma lazy_load_next_keys:
  "lazy_load_next e cfg g w = (Inr (Some d), g', w') \<Longrightarrow>
   keys d = [''Published'', ''Title'', ''Authors'', ''Summary'']
            @ (if load_all_available_meta cfg
               then [''entry_id'', ''published_first_time'', ''comment'', ''journal_ref'',
                     ''doi'', ''primary_category'', ''categories'', ''links'']
               else [])"
  using lazy_load_next_Some for_result_in_Some by blast

subsection \<open>The metadata of full-text Documents\<close>

text \<open>
  Claim C4, as amended. Every Document that the generator of \<^verbatim>\<open>lazy_load\<close> yields, and so
  every Document of the list that \<^verbatim>\<open>load\<close> returns, has the keys Published, Title, Authors
  and Summary, followed, exactly when \<open>load_all_available_meta\<close> is set, by entry_id,
  published_first_time, comment, journal_ref, doi, primary_category, categories and links;
  it has no other key. (The base keys are not those of \<^verbatim>\<open>get_summaries_as_docs\<close>: there
  is a Summary and no Entry ID.)
\<close>

theorem C4_full_text_metadata_keys:
  "(lazy_load_next e cfg g w = (Inr (Some d), g', w') \<longrightarrow>
      keys d = [''Published'', ''Title'', ''Authors'', ''Summary'']
               @ (if load_all_available_meta cfg
                  then [''entry_id'', ''published_first_time'', ''comment'', ''journal_ref'',
                        ''doi'', ''primary_category'', ''categories'', ''links'']
                  else []))
   \<and> (load e cfg query w = (Inr docs, w1) \<longrightarrow>
        (\<forall>d \<in> set docs.
           keys d = [''Published'', ''Title'', ''Authors'', ''Summary'']
                    @ (if load_all_available_meta cfg
                       then [''entry_id'', ''published_first_time'', ''comment'', ''journal_ref'',
                             ''doi'', ''primary_category'', ''categories'', ''links'']
                       else [])))"
proof (intro conjI impI ballI)
  assume "lazy_load_next e cfg g w = (Inr (Some d), g', w')"
  then show "keys d = [''Published'', ''Title'', ''Authors'', ''Summary'']
               @ (if load_all_available_meta cfg
                  then [''entry_id'', ''published_first_time'', ''comment'', ''journal_ref'',
                        ''doi'', ''primary_category'', ''categories'', ''links'']
                  else [])"
    by (rule lazy_load_next_keys)
next
  fix d'
  assume l: "load e cfg query w = (Inr docs, w1)" and d: "d' \<in> set docs"
  from l have "list_of e cfg (Created query) w = (Inr docs, w1)"
    by (simp add: load_eq)
  from list_of_docs [where P = "\<lambda>d. keys d = [''Published'', ''Title'', ''Authors'', ''Summary'']
               @ (if load_all_available_meta cfg
                  then [''entry_id'', ''published_first_time'', ''comment'', ''journal_ref'',
                        ''doi'', ''primary_category'', ''categories'', ''links'']
                  else [])", OF lazy_load_next_keys this d]
  show "keys d' = [''Published'', ''Title'', ''Authors'', ''Summary'']
         @ (if load_all_available_meta cfg
            then [''entry_id'', ''published_first_time'', ''comment'', ''journal_ref'',
                  ''doi'', ''primary_category'', ''categories'', ''links'']
            else [])" .
qed

text \<open>Facts about the example data.\<close>

lemma example_client:
  "client_results (env_of f answer) q k = answer" "fitz_available (env_of f answer) = f"
  by (simp_all add: env_of_def)

lemma example_readable:
  "\<forall>r \<in> set [paper_a, paper_b]. \<exists>pages. pdf_pages r = Inr pages"
  by (simp add: paper_a_def paper_b_def)

theorem C4_full_text_metadata_keys_witness:
  "(\<exists>docs w1. load (env_of True (Inr (Iterator [paper_a, paper_b] None))) default_config ''KAN'' world0
                 = (Inr docs, w1)
       \<and> length docs = 2
       \<and> keys (docs ! 0) = [''Published'', ''Title'', ''Authors'', ''Summary'', ''entry_id'',
            ''published_first_time'', ''comment'', ''journal_ref'', ''doi'', ''primary_category'',
            ''categories'', ''links'']
       \<and> keys (docs ! 1) = keys (docs ! 0))
   \<and> (\<exists>docs w1. load (env_of True (Inr (Iterator [paper_a, paper_b] None)))
                  (default_config\<lparr>load_all_available_meta := False\<rparr>) ''KAN'' world0
                 = (Inr docs, w1)
       \<and> length docs = 2
       \<and> keys (docs ! 0) = [''Published'', ''Title'', ''Authors'', ''Summary'']
       \<and> keys (docs ! 1) = [''Published'', ''Title'', ''Authors'', ''Summary''])"
proof -
  have on: "\<exists>docs w1. load (env_of True (Inr (Iterator [paper_a, paper_b] None))) cfg ''KAN'' world0
                 = (Inr docs, w1)
       \<and> length docs = 2
       \<and> (\<forall>d \<in> set docs. keys d = [''Published'', ''Title'', ''Authors'', ''Summary'']
               @ (if load_all_available_meta cfg
                  then [''entry_id'', ''published_first_time'', ''comment'', ''journal_ref'',
                        ''doi'', ''primary_category'', ''categories'', ''links'']
                  else []))" for cfg
  proof -
    from load_readable [of "env_of True (Inr (Iterator [paper_a, paper_b] None))" cfg "''KAN''"
        "[paper_a, paper_b]" world0] example_readable
    obtain docs w1 where l: "load (env_of True (Inr (Iterator [paper_a, paper_b] None))) cfg ''KAN'' world0
                 = (Inr docs, w1)"
      by (auto simp: example_client)
    from load_world [OF _ _ l, where results = "[paper_a, paper_b]" and f = None]
    have "length docs = 2"
      by (simp add: example_client)
    moreover from C4_full_text_metadata_keys
        [where e = "env_of True (Inr (Iterator [paper_a, paper_b] None))" and cfg = cfg and query = "''KAN''"
           and w = world0 and docs = docs and ?w1.0 = w1] l
    have "\<forall>d \<in> set docs. keys d = [''Published'', ''Title'', ''Authors'', ''Summary'']
               @ (if load_all_available_meta cfg
                  then [''entry_id'', ''published_first_time'', ''comment'', ''journal_ref'',
                        ''doi'', ''primary_category'', ''categories'', ''links'']
                  else [])"
      by blast
    ultimately show ?thesis using l by blast
  qed
  from on [of default_config] on [of "default_config\<lparr>load_all_available_meta := False\<rparr>"]
  show ?thesis
    by (auto simp: default_config_def)
qed

text \<open>
  With \<open>load_all_available_meta\<close> off, the Document of \<open>paper_a\<close> has the key Summary and
  lacks the key Entry ID, so its keys are not the four of \<^verbatim>\<open>get_summaries_as_docs\<close>.
\<close>

theorem C4_base_keys_counterexample:
  "\<exists>d g' w'. lazy_load_next (env_of True (Inr (Iterator [paper_a] None)))
        (default_config\<lparr>load_all_available_meta := False\<rparr>) (Created ''KAN'') world0
        = (Inr (Some d), g', w')
     \<and> keys d = [''Published'', ''Title'', ''Authors'', ''Summary'']
     \<and> ''Entry ID'' \<notin> set (keys d)
     \<and> ''Summary'' \<in> set (keys d)"
  by (simp add: lazy_load_next_Created example_client for_result_in_def download_pdf_def
        paper_a_def keys_def default_config_def)

subsection \<open>The temporary file\<close>

text \<open>
  Whenever the generator yields a Document, the file downloaded for it is on disk, the
  download being the last thing done: the \<^verbatim>\<open>os.remove\<close> is the statement after the
  \<^verbatim>\<open>yield\<close>. When the consumer asks for the next Document, the file is removed first
  (\<open>lazy_load_next_Yielded\<close>), and \<^verbatim>\<open>load\<close>, which goes on to the end, leaves none of the
  files it downloaded (\<open>load_world\<close>).
\<close>

lemma yielded_file_on_disk:
  assumes "lazy_load_next e cfg g w = (Inr (Some d), g', w')"
  shows "\<exists>rest p evs. g' = Yielded rest p \<and> p \<in> files w' \<and> trace w' = evs @ [Download p]"
proof -
  from lazy_load_next_Some [OF assms] obtain rs w0 where
    "for_result_in cfg rs w0 = (Inr (Some d), g', w')" by blast
  then have "g' = Yielded (Iterator (tl (pending rs)) (failure rs)) (pdf_path (hd (pending rs)))
             \<and> pdf_path (hd (pending rs)) \<in> files w'
             \<and> trace w' = trace w0 @ [Download (pdf_path (hd (pending rs)))]"
    by (auto simp: for_result_in_def download_pdf_def Let_def
             split: list.splits sum.splits option.splits)
  then show ?thesis by blast
qed

text \<open>
  Claim C5 does not hold. With the two example results, the first \<^verbatim>\<open>next\<close> yields the
  Document of \<open>paper_a\<close> while its file exists on disk. If the consumer then closes the
  generator (or leaves its loop), nothing more runs: the file stays on disk, and a further
  \<^verbatim>\<open>next\<close> only says that the generator has stopped.
\<close>

theorem C5_file_left_on_disk:
  "\<exists>d. lazy_load_next (env_of True (Inr (Iterator [paper_a, paper_b] None))) default_config
          (Created ''KAN'') world0
        = (Inr (Some d), Yielded (Iterator [paper_b] None) ''./2404.19756v4.KAN.pdf'',
           \<lparr>files = {''./2404.19756v4.KAN.pdf''},
            trace = [Search ''KAN'' 3, Download ''./2404.19756v4.KAN.pdf'']\<rparr>)
     \<and> ''./2404.19756v4.KAN.pdf'' \<in> files
           \<lparr>files = {''./2404.19756v4.KAN.pdf''},
            trace = [Search ''KAN'' 3, Download ''./2404.19756v4.KAN.pdf'']\<rparr>
     \<and> lazy_load_close (Yielded (Iterator [paper_b] None) ''./2404.19756v4.KAN.pdf'')
           \<lparr>files = {''./2404.19756v4.KAN.pdf''},
            trace = [Search ''KAN'' 3, Download ''./2404.19756v4.KAN.pdf'']\<rparr>
        = (Exhausted,
           \<lparr>files = {''./2404.19756v4.KAN.pdf''},
            trace = [Search ''KAN'' 3, Download ''./2404.19756v4.KAN.pdf'']\<rparr>)
     \<and> lazy_load_next (env_of True (Inr (Iterator [paper_a, paper_b] None))) default_config
          Exhausted
           \<lparr>files = {''./2404.19756v4.KAN.pdf''},
            trace = [Search ''KAN'' 3, Download ''./2404.19756v4.KAN.pdf'']\<rparr>
        = (Inr None, Exhausted,
           \<lparr>files = {''./2404.19756v4.KAN.pdf''},
            trace = [Search ''KAN'' 3, Download ''./2404.19756v4.KAN.pdf'']\<rparr>)"
  by (simp add: lazy_load_next_Created example_client for_result_in_def download_pdf_def
        paper_a_def default_config_def world0_def slice_to_def remove_char_def
        lazy_load_close_def lazy_load_next_def fetch_results_eq)

subsection \<open>Errors of the search\<close>

text \<open>
  An error that the call of the client raises is inside the \<^verbatim>\<open>try\<close> of \<^verbatim>\<open>run\<close> and of
  \<^verbatim>\<open>get_summaries_as_docs\<close>: a recognised one is caught and its text returned.
  \<^verbatim>\<open>lazy_load\<close> has no \<^verbatim>\<open>try\<close> around the search, so there, and in \<^verbatim>\<open>load\<close>, the same
  error is raised to the caller. An error that the iterator raises while the results are
  iterated is outside every \<^verbatim>\<open>try\<close>, and is raised to the caller by all of them.
\<close>

lemma search_error_caught:
  assumes "client_results e (slice_to (Some (ARXIV_MAX_QUERY_LENGTH cfg)) query) (top_k_results cfg)
             = Inl ex"
    and "arxiv_exceptions ex"
  shows "fst (run e cfg query w) = Inr (''Arxiv exception: '' @ str_of_error ex)"
    and "fst (get_summaries_as_docs e cfg query w)
           = Inr [Document_of_content (''Arxiv exception: '' @ str_of_error ex)]"
  using assms by (simp_all add: run_def get_summaries_as_docs_def fetch_results_eq)

lemma search_error_escapes_load:
  assumes "fitz_available e"
    and "client_results e
           (slice_to (Some (ARXIV_MAX_QUERY_LENGTH cfg))
              (remove_char CHR ''-'' (remove_char CHR '':'' query)))
           (top_k_results cfg) = Inl ex"
  shows "fst (load e cfg query w) = Inl ex"
    and "fst (lazy_load_next e cfg (Created query) w) = Inl ex"
proof -
  have n: "lazy_load_next e cfg (Created query) w =
          (Inl ex, Exhausted,
           w\<lparr>trace := trace w @
              [Search (slice_to (Some (ARXIV_MAX_QUERY_LENGTH cfg))
                         (remove_char CHR ''-'' (remove_char CHR '':'' query)))
                 (top_k_results cfg)]\<rparr>)"
    using assms by (simp add: lazy_load_next_Created)
  from list_of_Inl [OF n] show "fst (load e cfg query w) = Inl ex"
    by (simp add: load_eq)
  from n show "fst (lazy_load_next e cfg (Created query) w) = Inl ex"
    by simp
qed

lemma iteration_error_escapes:
  assumes "client_results e (slice_to (Some (ARXIV_MAX_QUERY_LENGTH cfg)) query) (top_k_results cfg)
             = Inr (Iterator results (Some ex))"
  shows "fst (run e cfg query w) = Inl ex"
    and "fst (get_summaries_as_docs e cfg query w) = Inl ex"
  using assms by (simp_all add: run_def get_summaries_as_docs_def fetch_results_eq iterate_def)

lemma iteration_error_escapes_load:
  assumes "fitz_available e"
    and "client_results e
           (slice_to (Some (ARXIV_MAX_QUERY_LENGTH cfg))
              (remove_char CHR ''-'' (remove_char CHR '':'' query)))
           (top_k_results cfg) = Inr (Iterator [] (Some ex))"
  shows "fst (load e cfg query w) = Inl ex"
    and "fst (lazy_load_next e cfg (Created query) w) = Inl ex"
proof -
  have n: "lazy_load_next e cfg (Created query) w =
          (Inl ex, Exhausted,
           w\<lparr>trace := trace w @
              [Search (slice_to (Some (ARXIV_MAX_QUERY_LENGTH cfg))
                         (remove_char CHR ''-'' (remove_char CHR '':'' query)))
                 (top_k_results cfg)]\<rparr>)"
    using assms by (simp add: lazy_load_next_Created for_result_in_Nil)
  from list_of_Inl [OF n] show "fst (load e cfg query w) = Inl ex"
    by (simp add: load_eq)
  from n show "fst (lazy_load_next e cfg (Created query) w) = Inl ex"
    by simp
qed

text \<open>
  Claim C1 does not hold. With a client whose call raises \<^verbatim>\<open>HTTPError\<close>, one of the three
  recognised errors, \<^verbatim>\<open>run\<close> returns the text \<^verbatim>\<open>Arxiv exception: ...\<close>, while \<^verbatim>\<open>load\<close> and
  the first \<^verbatim>\<open>next\<close> of \<^verbatim>\<open>lazy_load\<close> raise the \<^verbatim>\<open>HTTPError\<close>. With a client whose iterator
  raises the \<^verbatim>\<open>HTTPError\<close> when its first result is asked for, \<^verbatim>\<open>run\<close>,
  \<^verbatim>\<open>get_summaries_as_docs\<close> and \<^verbatim>\<open>load\<close> all raise it.
\<close>

theorem C1_search_error_escapes_load:
  "arxiv_exceptions (HTTPError ''Page request resulted in HTTP 503'')
   \<and> fst (run (env_of True (Inl (HTTPError ''Page request resulted in HTTP 503'')))
            default_config ''KAN'' world0)
       = Inr ''Arxiv exception: Page request resulted in HTTP 503''
   \<and> fst (load (env_of True (Inl (HTTPError ''Page request resulted in HTTP 503'')))
            default_config ''KAN'' world0)
       = Inl (HTTPError ''Page request resulted in HTTP 503'')
   \<and> fst (lazy_load_next (env_of True (Inl (HTTPError ''Page request resulted in HTTP 503'')))
            default_config (Created ''KAN'') world0)
       = Inl (HTTPError ''Page request resulted in HTTP 503'')
   \<and> fst (run (env_of True
                 (Inr (Iterator [] (Some (HTTPError ''Page request resulted in HTTP 503'')))))
            default_config ''KAN'' world0)
       = Inl (HTTPError ''Page request resulted in HTTP 503'')
   \<and> fst (get_summaries_as_docs
             (env_of True
                 (Inr (Iterator [] (Some (HTTPError ''Page request resulted in HTTP 503'')))))
            default_config ''KAN'' world0)
       = Inl (HTTPError ''Page request resulted in HTTP 503'')
   \<and> fst (load (env_of True
                 (Inr (Iterator [] (Some (HTTPError ''Page request resulted in HTTP 503'')))))
            default_config ''KAN'' world0)
       = Inl (HTTPError ''Page request resulted in HTTP 503'')"
  using search_error_caught(1)
          [of "env_of True (Inl (HTTPError ''Page request resulted in HTTP 503''))" default_config
              "''KAN''" "HTTPError ''Page request resulted in HTTP 503''" world0]
        search_error_escapes_load
          [of "env_of True (Inl (HTTPError ''Page request resulted in HTTP 503''))" default_config
              "''KAN''" "HTTPError ''Page request resulted in HTTP 503''" world0]
        iteration_error_escapes
          [of "env_of True
                 (Inr (Iterator [] (Some (HTTPError ''Page request resulted in HTTP 503''))))"
              default_config "''KAN''" "[]" "HTTPError ''Page request resulted in HTTP 503''" world0]
        iteration_error_escapes_load(1)
          [of "env_of True
                 (Inr (Iterator [] (Some (HTTPError ''Page request resulted in HTTP 503''))))"
              default_config "''KAN''" "HTTPError ''Page request resulted in HTTP 503''" world0]
  by (simp add: example_client)

subsection \<open>The length of the content\<close>

text \<open>
  The content of a full-text Document is cut to \<open>doc_content_chars_max\<close> (for a limit that
  is not negative).
\<close>

lemma full_text_content_bounded:
  assumes "lazy_load_next e cfg g w = (Inr (Some d), g', w')"
    and "doc_content_chars_max cfg = Some n" and "0 \<le> n"
  shows "int (length (page_content d)) \<le> n"
proof -
  from lazy_load_next_Some [OF assms(1)] obtain rs w0 where
    "for_result_in cfg rs w0 = (Inr (Some d), g', w')" by blast
  then have "\<exists>pages. page_content d = slice_to (doc_content_chars_max cfg) (concat pages)"
    by (auto simp: for_result_in_def download_pdf_def Let_def
             split: list.splits sum.splits option.splits)
  with assms(2,3) show ?thesis by (auto simp: slice_to_nonneg)
qed

text \<open>
  Claim C6 does not hold of \<^verbatim>\<open>get_summaries_as_docs\<close>: with \<open>doc_content_chars_max = 10\<close>,
  the Document of \<open>paper_a\<close> has its whole summary, 30 characters, as content.
\<close>

theorem C6_summary_content_not_cut:
  "doc_content_chars_max (default_config\<lparr>doc_content_chars_max := Some 10\<rparr>) = Some 10
   \<and> (\<exists>d. fst (get_summaries_as_docs (env_of True (Inr (Iterator [paper_a] None)))
                 (default_config\<lparr>doc_content_chars_max := Some 10\<rparr>) ''KAN'' world0) = Inr [d]
          \<and> page_content d = ''Networks with learnable edges.''
          \<and> length (page_content d) = 30)"
  by (simp add: get_summaries_as_docs_def fetch_results_eq example_client paper_a_def iterate_def)

subsection \<open>The Document of a search error\<close>



end
